theory Spec2Isabelle
  imports Complex_Main "HOL-Library.Word" "HOL-Library.Log_Nat"
begin

section \<open>Images, pixels and the pixel accessor\<close>

text \<open>
  The script \<^verbatim>\<open>scripts/remove_white_bg.py\<close> works on an image in mode RGBA: a grid of
  \<open>width \<times> height\<close> pixels, each four bytes, kept in row-major order. Python sees a pixel as a
  tuple of four unbounded integers; the image stores bytes. Opening, converting to RGBA and
  saving the file are the image library's business: a function of the model takes the decoded
  image and returns the image that \<^verbatim>\<open>img.save\<close> is reached with, or the exception that
  ends the call before it.
\<close>

type_synonym byte = "8 word"

type_synonym rgba = "byte \<times> byte \<times> byte \<times> byte"

type_synonym py_pixel = "int \<times> int \<times> int \<times> int"

record image =
  width :: nat
  height :: nat
  data :: "rgba list"

datatype py_error = IndexError

text \<open>The invariant of every image the library hands out: one stored pixel per coordinate.\<close>

definition wf_image :: "image \<Rightarrow> bool" where
  "wf_image img \<longleftrightarrow> length (data img) = width img * height img"

definition to_py :: "rgba \<Rightarrow> py_pixel" where
  "to_py p = (case p of (r, g, b, a) \<Rightarrow> (uint r, uint g, uint b, uint a))"

text \<open>Storing an integer into a byte channel saturates (the library's \<^verbatim>\<open>CLIP8\<close>).\<close>

definition clip8 :: "int \<Rightarrow> byte" where
  "clip8 v = (if v \<le> 0 then 0 else if v < 256 then word_of_int v else 255)"

definition of_py :: "py_pixel \<Rightarrow> rgba" where
  "of_py p = (case p of (r, g, b, a) \<Rightarrow> (clip8 r, clip8 g, clip8 b, clip8 a))"

text \<open>
  \<^verbatim>\<open>pixels[x, y]\<close> on the object returned by \<^verbatim>\<open>img.load()\<close>: a negative index counts
  from the far edge, and an index outside the image raises \<^verbatim>\<open>IndexError\<close>.
\<close>

definition pixel_index :: "image \<Rightarrow> int \<Rightarrow> int \<Rightarrow> py_error + nat" where
  "pixel_index img x y =
     (let x' = (if x < 0 then int (width img) + x else x);
          y' = (if y < 0 then int (height img) + y else y)
      in if x' < 0 \<or> y' < 0 \<or> int (width img) \<le> x' \<or> int (height img) \<le> y'
         then Inl IndexError
         else Inr (nat y' * width img + nat x'))"

definition pixels_get :: "image \<Rightarrow> int \<Rightarrow> int \<Rightarrow> py_error + py_pixel" where
  "pixels_get img x y =
     (case pixel_index img x y of
        Inl e \<Rightarrow> Inl e
      | Inr k \<Rightarrow> Inr (to_py (data img ! k)))"

definition pixels_set :: "image \<Rightarrow> int \<Rightarrow> int \<Rightarrow> py_pixel \<Rightarrow> py_error + image" where
  "pixels_set img x y p =
     (case pixel_index img x y of
        Inl e \<Rightarrow> Inl e
      | Inr k \<Rightarrow> Inr (img\<lparr>data := (data img)[k := of_py p]\<rparr>))"

text \<open>\<^verbatim>\<open>img.getdata()\<close> and \<^verbatim>\<open>img.putdata(seq)\<close>, the latter for a sequence with one
  item per pixel, which is the only way the script calls it.\<close>

definition getdata :: "image \<Rightarrow> py_pixel list" where
  "getdata img = map to_py (data img)"

definition putdata :: "image \<Rightarrow> py_pixel list \<Rightarrow> image" where
  "putdata img new_data = img\<lparr>data := map of_py new_data\<rparr>"

text \<open>Sequencing of statements that may raise, and a \<^verbatim>\<open>for\<close> loop whose body may
  raise: the first exception ends the computation.\<close>

definition and_then :: "py_error + 'a \<Rightarrow> ('a \<Rightarrow> py_error + 'b) \<Rightarrow> py_error + 'b" where
  "and_then m f = (case m of Inl e \<Rightarrow> Inl e | Inr v \<Rightarrow> f v)"

fun for_each :: "'a list \<Rightarrow> ('a \<Rightarrow> 's \<Rightarrow> py_error + 's) \<Rightarrow> 's \<Rightarrow> py_error + 's" where
  "for_each [] body s = Inr s"
| "for_each (x # xs) body s = and_then (body x s) (for_each xs body)"


section \<open>Python floats\<close>

text \<open>
  The alpha ramp is computed in floating point. A finite binary64 value is \<open>m \<times> 2\<^sup>e\<close>,
  kept here as the pair \<open>(m, e)\<close>. \<open>rne53 p q\<close> is the binary64 value nearest to the
  fraction \<open>p / q\<close> (\<open>q > 0\<close>), ties to the even significand: the result of every IEEE 754
  operation whose exact result is \<open>p / q\<close>. The significand has 53 bits, so with
  \<open>2\<^sup>e \<le> |p / q| < 2\<^sup>e\<^sup>+\<^sup>1\<close> the result is a multiple of \<open>2\<^sup>e\<^sup>-\<^sup>5\<^sup>2\<close>. Overflow and
  subnormal numbers are left out: the magnitudes that occur here are 0 or lie between
  \<open>1/70\<close> and \<open>255\<close>.
\<close>

type_synonym float = "int \<times> int"

definition rne53 :: "int \<Rightarrow> int \<Rightarrow> float" where
  "rne53 p q = (if p = 0 then (0, 0) else
     (let d = bitlen \<bar>p\<bar> - bitlen q;
          e = (if q * 2 ^ nat d \<le> \<bar>p\<bar> * 2 ^ nat (- d) then d else d - 1);
          s = 52 - e;
          num = \<bar>p\<bar> * 2 ^ nat s;
          den = q * 2 ^ nat (- s);
          f = num div den;
          rr = num mod den;
          m = (if 2 * rr < den then f
               else if den < 2 * rr then f + 1
               else if even f then f else f + 1)
      in (sgn p * m, - s)))"

text \<open>\<^verbatim>\<open>float(n)\<close>, \<^verbatim>\<open>a / b\<close> on two integers (correctly rounded in Python; the divisor
  here is the literal \<open>70\<close>), \<^verbatim>\<open>x * y\<close> on two floats and \<^verbatim>\<open>int(x)\<close>, which truncates
  towards zero.\<close>

definition float_of_int :: "int \<Rightarrow> float" where
  "float_of_int n = rne53 n 1"

definition float_truediv :: "int \<Rightarrow> int \<Rightarrow> float" where
  "float_truediv a b = rne53 a b"

definition float_mul :: "float \<Rightarrow> float \<Rightarrow> float" where
  "float_mul x y = (case x of (m1, e1) \<Rightarrow> case y of (m2, e2) \<Rightarrow>
     rne53 (m1 * m2 * 2 ^ nat (e1 + e2)) (2 ^ nat (- (e1 + e2))))"

definition py_int :: "float \<Rightarrow> int" where
  "py_int x = (case x of (m, e) \<Rightarrow> sgn m * ((\<bar>m\<bar> * 2 ^ nat e) div 2 ^ nat (- e)))"


section \<open>The three strategies\<close>

subsection \<open>\<^verbatim>\<open>remove_white_background\<close>\<close>

definition white_step :: "int \<Rightarrow> py_pixel \<Rightarrow> py_pixel list \<Rightarrow> py_pixel list" where
  "white_step tolerance item new_data =
     (case item of (r, g, b, a) \<Rightarrow>
        if r > 255 - tolerance \<and> g > 255 - tolerance \<and> b > 255 - tolerance
        then new_data @ [(r, g, b, 0)]
        else new_data @ [item])"

definition remove_white_background :: "image \<Rightarrow> int \<Rightarrow> image" where
  "remove_white_background img tolerance =
     putdata img (fold (white_step tolerance) (getdata img) [])"

text \<open>The call that leaves \<^verbatim>\<open>tolerance\<close> out takes the default of the signature.\<close>

definition remove_white_background_default :: "image \<Rightarrow> image" where
  "remove_white_background_default img = remove_white_background img 30"


subsection \<open>\<^verbatim>\<open>remove_near_white_with_edges\<close>\<close>

text \<open>
  \<^verbatim>\<open>to_remove\<close> is a Python set of coordinate pairs, kept as a list without repetitions.
  The order in which the second loop visits the set is the interpreter's: it is the
  parameter \<open>iter\<close>, which gives the visiting order of a set. \<^verbatim>\<open>to_remove.add\<close> is
  \<open>List.insert\<close>, which leaves the list alone when the pair is in it already.
\<close>

definition is_white_ish :: "int \<Rightarrow> int \<Rightarrow> int \<Rightarrow> int \<Rightarrow> bool" where
  "is_white_ish r g b tol \<longleftrightarrow> r > 255 - tol \<and> g > 255 - tol \<and> b > 255 - tol"

definition edges_scan_step ::
    "image \<Rightarrow> int \<Rightarrow> nat \<Rightarrow> nat \<Rightarrow> (int \<times> int) list \<Rightarrow> py_error + (int \<times> int) list" where
  "edges_scan_step img tolerance y x to_remove =
     and_then (pixels_get img (int x) (int y)) (\<lambda>(r, g, b, a).
       Inr (if is_white_ish r g b tolerance
            then List.insert (int x, int y) to_remove
            else to_remove))"

definition edges_apply_step :: "int \<times> int \<Rightarrow> image \<Rightarrow> py_error + image" where
  "edges_apply_step xy img =
     (case xy of (x, y) \<Rightarrow>
        and_then (pixels_get img x y) (\<lambda>(r, g, b, a). pixels_set img x y (r, g, b, 0)))"

definition remove_near_white_with_edges ::
    "((int \<times> int) list \<Rightarrow> (int \<times> int) list) \<Rightarrow> image \<Rightarrow> int \<Rightarrow> py_error + image" where
  "remove_near_white_with_edges iter img tolerance =
     and_then
       (for_each [0..<height img]
          (\<lambda>y. for_each [0..<width img] (edges_scan_step img tolerance y)) [])
       (\<lambda>to_remove. for_each (iter to_remove) edges_apply_step img)"

definition remove_near_white_with_edges_default ::
    "((int \<times> int) list \<Rightarrow> (int \<times> int) list) \<Rightarrow> image \<Rightarrow> py_error + image" where
  "remove_near_white_with_edges_default iter img = remove_near_white_with_edges iter img 40"


subsection \<open>\<^verbatim>\<open>process_sprite_sheet\<close>\<close>

definition tolerance :: int where
  "tolerance = 35"

text \<open>The four corner reads and the floor average of each colour channel.\<close>

definition corners :: "image \<Rightarrow> py_error + py_pixel list" where
  "corners img =
     (let w = int (width img); h = int (height img) in
      and_then (pixels_get img 0 0) (\<lambda>c0.
      and_then (pixels_get img (w - 1) 0) (\<lambda>c1.
      and_then (pixels_get img 0 (h - 1)) (\<lambda>c2.
      and_then (pixels_get img (w - 1) (h - 1)) (\<lambda>c3.
      Inr [c0, c1, c2, c3])))))"

definition average :: "py_pixel list \<Rightarrow> int \<times> int \<times> int" where
  "average cs =
     (sum_list (map (\<lambda>(r, g, b, a). r) cs) div 4,
      sum_list (map (\<lambda>(r, g, b, a). g) cs) div 4,
      sum_list (map (\<lambda>(r, g, b, a). b) cs) div 4)"

definition distance :: "int \<times> int \<times> int \<Rightarrow> py_pixel \<Rightarrow> int" where
  "distance avg p =
     (case avg of (avg_r, avg_g, avg_b) \<Rightarrow> case p of (r, g, b, a) \<Rightarrow>
        \<bar>r - avg_r\<bar> + \<bar>g - avg_g\<bar> + \<bar>b - avg_b\<bar>)"

definition ramp_alpha :: "int \<Rightarrow> int" where
  "ramp_alpha dst =
     (let alpha = py_int (float_mul (float_truediv (dst - tolerance) (tolerance * 2))
                                    (float_of_int 255))
      in min 255 (max 0 alpha))"

definition sprite_step :: "int \<times> int \<times> int \<Rightarrow> nat \<Rightarrow> nat \<Rightarrow> image \<Rightarrow> py_error + image" where
  "sprite_step avg y x img =
     and_then (pixels_get img (int x) (int y)) (\<lambda>(r, g, b, a).
       (let dst = distance avg (r, g, b, a) in
        if dst < tolerance * 3 then
          (if dst < tolerance then pixels_set img (int x) (int y) (r, g, b, 0)
           else pixels_set img (int x) (int y) (r, g, b, ramp_alpha dst))
        else Inr img))"

definition process_sprite_sheet :: "image \<Rightarrow> py_error + image" where
  "process_sprite_sheet img =
     and_then (corners img) (\<lambda>cs.
       for_each [0..<height img]
         (\<lambda>y. for_each [0..<width img] (sprite_step (average cs) y)) img)"


section \<open>What one loop iteration does to the stored pixel\<close>

text \<open>The pixel that an iteration of the loop of \<^verbatim>\<open>process_sprite_sheet\<close> leaves at the
  coordinate it visits, as a function of the pixel found there.\<close>

definition sprite_pixel :: "int \<times> int \<times> int \<Rightarrow> rgba \<Rightarrow> rgba" where
  "sprite_pixel avg p =
     (case to_py p of (r, g, b, a) \<Rightarrow>
        (let dst = distance avg (r, g, b, a) in
         if dst < tolerance * 3 then
           (if dst < tolerance then of_py (r, g, b, 0) else of_py (r, g, b, ramp_alpha dst))
         else p))"

text \<open>The same for the two whiteners.\<close>

definition white_pixel :: "int \<Rightarrow> rgba \<Rightarrow> rgba" where
  "white_pixel tol p =
     (case to_py p of (r, g, b, a) \<Rightarrow>
        if r > 255 - tol \<and> g > 255 - tol \<and> b > 255 - tol then of_py (r, g, b, 0) else p)"

definition clear_pixel :: "rgba \<Rightarrow> rgba" where
  "clear_pixel p = (case to_py p of (r, g, b, a) \<Rightarrow> of_py (r, g, b, 0))"

definition whitish :: "int \<Rightarrow> rgba \<Rightarrow> bool" where
  "whitish tol p = (case to_py p of (r, g, b, a) \<Rightarrow> is_white_ish r g b tol)"

text \<open>What an iteration of the first loop of \<^verbatim>\<open>remove_near_white_with_edges\<close> does
  to \<^verbatim>\<open>to_remove\<close> at row \<open>y\<close> and column \<open>x\<close>.\<close>

definition scan_add :: "image \<Rightarrow> int \<Rightarrow> nat \<times> nat \<Rightarrow> (int \<times> int) list \<Rightarrow> (int \<times> int) list" where
  "scan_add img tol yx to_remove =
     (case yx of (y, x) \<Rightarrow>
        if whitish tol (data img ! (y * width img + x))
        then List.insert (int x, int y) to_remove
        else to_remove)"

text \<open>Rewriting the stored pixel at one index, and the images that differ from \<open>img\<close> in
  their pixels only: the states a loop over \<open>img\<close> passes through.\<close>

definition modify_at :: "(rgba \<Rightarrow> rgba) \<Rightarrow> nat \<Rightarrow> image \<Rightarrow> image" where
  "modify_at f k img = img\<lparr>data := (data img)[k := f (data img ! k)]\<rparr>"

definition same_shape :: "image \<Rightarrow> image \<Rightarrow> bool" where
  "same_shape img s \<longleftrightarrow>
     width s = width img \<and> height s = height img \<and> length (data s) = length (data img)"

text \<open>Reading a stored pixel: by coordinate, its colour and its opacity.\<close>

definition pixel_at :: "image \<Rightarrow> nat \<Rightarrow> nat \<Rightarrow> py_pixel" where
  "pixel_at img x y = to_py (data img ! (y * width img + x))"

definition rgb :: "py_pixel \<Rightarrow> int \<times> int \<times> int" where
  "rgb p = (case p of (r, g, b, a) \<Rightarrow> (r, g, b))"

definition alpha :: "py_pixel \<Rightarrow> int" where
  "alpha p = (case p of (r, g, b, a) \<Rightarrow> a)"


section \<open>The alpha ramp as the specification words it\<close>

text \<open>
  The specification gives the ramp as \<open>clamp(0, 255, round((dist - T) / (2T) \<times> 255))\<close> with
  \<open>T = 35\<close>, over the exact quotient. \<open>spec_ramp_alpha\<close> is that formula;
  \<open>floor_ramp_alpha\<close> is the same formula with the quotient truncated instead of rounded.
\<close>

definition spec_ramp_alpha :: "int \<Rightarrow> int" where
  "spec_ramp_alpha d = max 0 (min 255 (round ((of_int (d - 35) :: rat) / (2 * 35) * 255)))"

definition floor_ramp_alpha :: "int \<Rightarrow> int" where
  "floor_ramp_alpha d = max 0 (min 255 \<lfloor>(of_int (d - 35) :: rat) / (2 * 35) * 255\<rfloor>)"


section \<open>Sample images\<close>

text \<open>A strip with white ends, a near-white pixel at distance 36 from white and a
  transparent black pixel; and what \<^verbatim>\<open>process_sprite_sheet\<close> makes of it.\<close>

definition strip :: image where
  "strip = \<lparr>width = 4, height = 1,
     data = [(255, 255, 255, 255), (219, 255, 255, 255), (0, 0, 0, 0), (255, 255, 255, 255)]\<rparr>"

definition strip_out :: image where
  "strip_out = \<lparr>width = 4, height = 1,
     data = [(255, 255, 255, 0), (219, 255, 255, 3), (0, 0, 0, 0), (255, 255, 255, 0)]\<rparr>"

text \<open>A strip with pixels at distance exactly 35 and exactly 105 from white.\<close>

definition edge_strip :: image where
  "edge_strip = \<lparr>width = 4, height = 1,
     data = [(255, 255, 255, 255), (220, 255, 255, 255), (150, 255, 255, 77), (255, 255, 255, 255)]\<rparr>"

definition edge_strip_out :: image where
  "edge_strip_out = \<lparr>width = 4, height = 1,
     data = [(255, 255, 255, 0), (220, 255, 255, 0), (150, 255, 255, 77), (255, 255, 255, 0)]\<rparr>"

text \<open>A column one pixel wide with a black and a white end, a single pixel, and an image
  without pixels.\<close>

definition column :: image where
  "column = \<lparr>width = 1, height = 2, data = [(0, 0, 0, 255), (255, 255, 255, 255)]\<rparr>"

definition dot :: image where
  "dot = \<lparr>width = 1, height = 1, data = [(10, 20, 30, 255)]\<rparr>"

definition no_pixels :: image where
  "no_pixels = \<lparr>width = 0, height = 0, data = []\<rparr>"

text \<open>Two light grey pixels, one above and one at the threshold of tolerance 30.\<close>

definition greys :: image where
  "greys = \<lparr>width = 2, height = 1, data = [(230, 230, 230, 255), (225, 230, 230, 255)]\<rparr>"

definition greys_out :: image where
  "greys_out = \<lparr>width = 2, height = 1, data = [(230, 230, 230, 0), (225, 230, 230, 255)]\<rparr>"

definition white4 :: "py_pixel list" where
  "white4 = [(255, 255, 255, 255), (255, 255, 255, 255), (255, 255, 255, 255), (255, 255, 255, 255)]"


section \<open>The alpha ramp, value by value\<close>

text \<open>
  The double nearest to \<open>14 / 70\<close> has the bits \<^verbatim>\<open>3FC999999999999A\<close>; times 255 it
  rounds to 51 exactly. The table below runs the floating-point model on every distance of
  the ramp.
\<close>

lemma float_samples:
    "float_truediv 14 70 = (7205759403792794, - 55)"
    "float_of_int 255 = (8972014882652160, - 45)"
    "float_mul (7205759403792794, - 55) (8972014882652160, - 45) = (7177611906121728, - 47)"
    "py_int (7177611906121728, - 47) = 51"
  by code_simp+

lemma ramp_alpha_table_0:
    "ramp_alpha 35 = 0"
    "ramp_alpha 36 = 3"
    "ramp_alpha 37 = 7"
    "ramp_alpha 38 = 10"
    "ramp_alpha 39 = 14"
    "ramp_alpha 40 = 18"
    "ramp_alpha 41 = 21"
    "ramp_alpha 42 = 25"
    "ramp_alpha 43 = 29"
    "ramp_alpha 44 = 32"
  by code_simp+

lemma ramp_alpha_table_1:
    "ramp_alpha 45 = 36"
    "ramp_alpha 46 = 40"
    "ramp_alpha 47 = 43"
    "ramp_alpha 48 = 47"
    "ramp_alpha 49 = 51"
    "ramp_alpha 50 = 54"
    "ramp_alpha 51 = 58"
    "ramp_alpha 52 = 61"
    "ramp_alpha 53 = 65"
    "ramp_alpha 54 = 69"
  by code_simp+

lemma ramp_alpha_table_2:
    "ramp_alpha 55 = 72"
    "ramp_alpha 56 = 76"
    "ramp_alpha 57 = 80"
    "ramp_alpha 58 = 83"
    "ramp_alpha 59 = 87"
    "ramp_alpha 60 = 91"
    "ramp_alpha 61 = 94"
    "ramp_alpha 62 = 98"
    "ramp_alpha 63 = 102"
    "ramp_alpha 64 = 105"
  by code_simp+

lemma ramp_alpha_table_3:
    "ramp_alpha 65 = 109"
    "ramp_alpha 66 = 112"
    "ramp_alpha 67 = 116"
    "ramp_alpha 68 = 120"
    "ramp_alpha 69 = 123"
    "ramp_alpha 70 = 127"
    "ramp_alpha 71 = 131"
    "ramp_alpha 72 = 134"
    "ramp_alpha 73 = 138"
    "ramp_alpha 74 = 142"
  by code_simp+

lemma ramp_alpha_table_4:
    "ramp_alpha 75 = 145"
    "ramp_alpha 76 = 149"
    "ramp_alpha 77 = 153"
    "ramp_alpha 78 = 156"
    "ramp_alpha 79 = 160"
    "ramp_alpha 80 = 163"
    "ramp_alpha 81 = 167"
    "ramp_alpha 82 = 171"
    "ramp_alpha 83 = 174"
    "ramp_alpha 84 = 178"
  by code_simp+

lemma ramp_alpha_table_5:
    "ramp_alpha 85 = 182"
    "ramp_alpha 86 = 185"
    "ramp_alpha 87 = 189"
    "ramp_alpha 88 = 193"
    "ramp_alpha 89 = 196"
    "ramp_alpha 90 = 200"
    "ramp_alpha 91 = 204"
    "ramp_alpha 92 = 207"
    "ramp_alpha 93 = 211"
    "ramp_alpha 94 = 214"
  by code_simp+

lemma ramp_alpha_table_6:
    "ramp_alpha 95 = 218"
    "ramp_alpha 96 = 222"
    "ramp_alpha 97 = 225"
    "ramp_alpha 98 = 229"
    "ramp_alpha 99 = 233"
    "ramp_alpha 100 = 236"
    "ramp_alpha 101 = 240"
    "ramp_alpha 102 = 244"
    "ramp_alpha 103 = 247"
    "ramp_alpha 104 = 251"
  by code_simp+

lemmas ramp_alpha_table = ramp_alpha_table_0 ramp_alpha_table_1 ramp_alpha_table_2 ramp_alpha_table_3 ramp_alpha_table_4 ramp_alpha_table_5 ramp_alpha_table_6

lemma ramp_alpha_floor:
  assumes "35 \<le> d" "d < 105"
  shows "ramp_alpha d = (d - 35) * 255 div 70"
proof -
  have "d \<in> {35..104}" using assms by simp
  then have "d \<in> set [35..104]" by (simp only: set_upto)
  then show ?thesis
    by (simp, elim disjE, simp_all add: ramp_alpha_table)
qed


section \<open>Bytes, pixel access and loops\<close>

lemma clip8_uint: "clip8 (uint (w :: byte)) = w"
proof -
  have "uint w < 256" using uint_bounded [of w] by simp
  moreover have "0 \<le> uint w" by simp
  moreover have "uint w = 0 \<Longrightarrow> w = 0" using word_of_int_uint [of w] by simp
  ultimately show ?thesis
    by (cases "uint w = 0") (auto simp: clip8_def)
qed

lemma of_py_to_py: "of_py (to_py p) = p"
  by (cases p) (simp add: of_py_def to_py_def clip8_uint)

lemma pixel_index_in_range:
  "x < width img \<Longrightarrow> y < height img \<Longrightarrow> pixel_index img (int x) (int y) = Inr (y * width img + x)"
  by (simp add: pixel_index_def)

lemma pixel_index_empty:
  "width img = 0 \<or> height img = 0 \<Longrightarrow> pixel_index img 0 0 = Inl IndexError"
  by (auto simp: pixel_index_def)

lemma index_bound: "x < w \<Longrightarrow> y < h \<Longrightarrow> y * w + x < w * (h::nat)"
proof -
  assume a: "x < w" "y < h"
  then have "y * w + x < y * w + w" by simp
  also have "\<dots> = (Suc y) * w" by simp
  also have "\<dots> \<le> h * w" using a by (intro mult_le_mono1) simp
  finally show ?thesis by (simp add: mult.commute)
qed

lemma for_each_fold:
  assumes "\<And>x s. x \<in> set xs \<Longrightarrow> I s \<Longrightarrow> body x s = Inr (g x s) \<and> I (g x s)"
    and "I s"
  shows "for_each xs body s = Inr (fold g xs s) \<and> I (fold g xs s)"
  using assms
proof (induction xs arbitrary: s)
  case Nil
  then show ?case by simp
next
  case (Cons x xs)
  from Cons.prems have step: "body x s = Inr (g x s)" "I (g x s)" by auto
  have "for_each xs body (g x s) = Inr (fold g xs (g x s)) \<and> I (fold g xs (g x s))"
    by (rule Cons.IH) (use Cons.prems step in auto)
  with step show ?case by (simp add: and_then_def)
qed

lemma same_shape_refl: "same_shape img img"
  by (simp add: same_shape_def)

lemma same_shape_modify_at: "same_shape img s \<Longrightarrow> same_shape img (modify_at f k s)"
  by (simp add: same_shape_def modify_at_def)

lemma pixels_get_in_range:
  "x < width img \<Longrightarrow> y < height img \<Longrightarrow>
   pixels_get img (int x) (int y) = Inr (to_py (data img ! (y * width img + x)))"
  by (simp add: pixels_get_def pixel_index_in_range)

lemma pixels_set_in_range:
  "x < width img \<Longrightarrow> y < height img \<Longrightarrow>
   pixels_set img (int x) (int y) p = Inr (img\<lparr>data := (data img)[y * width img + x := of_py p]\<rparr>)"
  by (simp add: pixels_set_def pixel_index_in_range)

lemma sprite_step_in_range:
  assumes "x < width img" "y < height img"
  shows "sprite_step avg y x img = Inr (modify_at (sprite_pixel avg) (y * width img + x) img)"
proof -
  obtain r g b a where p: "to_py (data img ! (y * width img + x)) = (r, g, b, a)"
    by (cases "to_py (data img ! (y * width img + x))") auto
  show ?thesis
    using assms p
    by (simp add: sprite_step_def pixels_get_in_range pixels_set_in_range and_then_def
        modify_at_def sprite_pixel_def Let_def)
qed

lemma fold_modify_at_shape: "same_shape img s \<Longrightarrow> same_shape img (fold (modify_at f) ks s)"
  by (induction ks arbitrary: s) (simp_all add: same_shape_modify_at)

lemma fold_grid:
  "fold (\<lambda>y. fold (\<lambda>x. F (c y x)) xs) ys = fold F (concat (map (\<lambda>y. map (c y) xs) ys))"
  by (induction ys) (simp_all add: fold_map comp_def)

lemma grid_indices:
  "concat (map (\<lambda>y. map (\<lambda>x. y * w + x) [0..<w]) [0..<h]) = [0..<h * w]"
proof (induction h)
  case 0
  then show ?case by simp
next
  case (Suc h)
  have row: "map (\<lambda>x. h * w + x) [0..<w] = [h * w..<h * w + w]"
    using map_add_upt [of "h * w" w] by (simp add: add.commute)
  have "[0..<h * w + w] = [0..<h * w] @ [h * w..<h * w + w]"
    by (rule upt_add_eq_append) simp
  with Suc row show ?case
    by (simp add: add.commute)
qed

lemma fold_update_length:
  "length (fold (\<lambda>k d. d[k := f (d ! k)]) ks d) = length d"
  by (induction ks arbitrary: d) simp_all

lemma fold_update_nth:
  assumes "distinct ks \<or> (\<forall>p. f (f p) = f p)" "j < length d"
  shows "fold (\<lambda>k d. d[k := f (d ! k)]) ks d ! j = (if j \<in> set ks then f (d ! j) else d ! j)"
  using assms
proof (induction ks arbitrary: d)
  case Nil
  then show ?case by simp
next
  case (Cons k ks)
  let ?d = "d[k := f (d ! k)]"
  have len: "j < length ?d" using Cons.prems by simp
  have rest: "distinct ks \<or> (\<forall>p. f (f p) = f p)" using Cons.prems by auto
  have "fold (\<lambda>k d. d[k := f (d ! k)]) ks ?d ! j = (if j \<in> set ks then f (?d ! j) else ?d ! j)"
    by (rule Cons.IH [OF rest len])
  moreover have "?d ! j = (if j = k then f (d ! j) else d ! j)"
    using Cons.prems by (simp add: nth_list_update)
  moreover have "j \<in> set ks \<Longrightarrow> j = k \<Longrightarrow> f (f (d ! j)) = f (d ! j)"
    using Cons.prems by auto
  ultimately show ?case by auto
qed

lemma data_fold_modify_at:
  "data (fold (modify_at f) ks s) = fold (\<lambda>k d. d[k := f (d ! k)]) ks (data s)"
  by (induction ks arbitrary: s) (simp_all add: modify_at_def)

lemma fold_modify_at_all:
  assumes "n = length (data img)"
  shows "fold (modify_at f) [0..<n] img = img\<lparr>data := map f (data img)\<rparr>"
proof -
  have d: "data (fold (modify_at f) [0..<n] img) = map f (data img)"
    unfolding data_fold_modify_at
    by (rule nth_equalityI) (simp_all add: fold_update_length fold_update_nth assms)
  have "same_shape img (fold (modify_at f) [0..<n] img)"
    by (rule fold_modify_at_shape [OF same_shape_refl])
  then have w: "width (fold (modify_at f) [0..<n] img) = width img"
    and h: "height (fold (modify_at f) [0..<n] img) = height img"
    by (simp_all add: same_shape_def)
  have m: "image.more (fold (modify_at f) ks s) = image.more s" for ks s
    by (induction ks arbitrary: s) (simp_all add: modify_at_def)
  show ?thesis
    by (rule image.equality) (simp_all add: d w h m)
qed

lemma sprite_loop:
  assumes "wf_image img"
  shows "for_each [0..<height img] (\<lambda>y. for_each [0..<width img] (sprite_step avg y)) img
         = Inr (img\<lparr>data := map (sprite_pixel avg) (data img)\<rparr>)"
proof -
  let ?f = "sprite_pixel avg"
  let ?w = "width img"
  let ?row = "\<lambda>y. fold (\<lambda>x. modify_at ?f (y * ?w + x)) [0..<?w]"
  have inner: "for_each [0..<?w] (sprite_step avg y) s = Inr (?row y s) \<and> same_shape img (?row y s)"
    if "y \<in> set [0..<height img]" "same_shape img s" for y s
  proof (rule for_each_fold [where I = "same_shape img"])
    fix x t
    assume "x \<in> set [0..<?w]" "same_shape img t"
    with that show "sprite_step avg y x t = Inr (modify_at ?f (y * ?w + x) t)
        \<and> same_shape img (modify_at ?f (y * ?w + x) t)"
      using sprite_step_in_range [of x t y avg]
      by (simp add: same_shape_def modify_at_def)
  qed (rule that)
  have "for_each [0..<height img] (\<lambda>y. for_each [0..<?w] (sprite_step avg y)) img
        = Inr (fold ?row [0..<height img] img) \<and> same_shape img (fold ?row [0..<height img] img)"
    by (rule for_each_fold [where I = "same_shape img"]) (use inner same_shape_refl in auto)
  moreover have "fold ?row [0..<height img] img = fold (modify_at ?f) [0..<height img * ?w] img"
    using fold_grid [of "modify_at ?f" "\<lambda>y x. y * ?w + x" "[0..<?w]" "[0..<height img]"]
    by (simp add: grid_indices)
  moreover have "fold (modify_at ?f) [0..<height img * ?w] img = img\<lparr>data := map ?f (data img)\<rparr>"
    by (rule fold_modify_at_all) (use assms in \<open>simp add: wf_image_def mult.commute\<close>)
  ultimately show ?thesis by simp
qed

lemma corners_empty:
  "width img = 0 \<or> height img = 0 \<Longrightarrow> corners img = Inl IndexError"
  by (simp add: corners_def pixels_get_def pixel_index_empty and_then_def Let_def)

lemma pixel_index_corners:
  assumes "0 < width img" "0 < height img"
  shows "pixel_index img 0 0 = Inr 0"
    and "pixel_index img (int (width img) - 1) 0 = Inr (width img - 1)"
    and "pixel_index img 0 (int (height img) - 1) = Inr ((height img - 1) * width img)"
    and "pixel_index img (int (width img) - 1) (int (height img) - 1)
         = Inr ((height img - 1) * width img + (width img - 1))"
  using assms by (auto simp: pixel_index_def nat_diff_distrib)

lemma corners_nonempty:
  assumes "0 < width img" "0 < height img"
  shows "corners img = Inr [pixel_at img 0 0, pixel_at img (width img - 1) 0,
           pixel_at img 0 (height img - 1), pixel_at img (width img - 1) (height img - 1)]"
  by (simp add: corners_def and_then_def Let_def pixels_get_def pixel_at_def
      pixel_index_corners [OF assms])

lemma process_sprite_sheet_empty:
  "width img = 0 \<or> height img = 0 \<Longrightarrow> process_sprite_sheet img = Inl IndexError"
  by (simp add: process_sprite_sheet_def corners_empty and_then_def)

lemma process_sprite_sheet_map:
  assumes "wf_image img" "corners img = Inr cs"
  shows "process_sprite_sheet img = Inr (img\<lparr>data := map (sprite_pixel (average cs)) (data img)\<rparr>)"
  using assms by (simp add: process_sprite_sheet_def and_then_def sprite_loop)

lemma uint_clip8: "0 \<le> v \<Longrightarrow> v \<le> 255 \<Longrightarrow> uint (clip8 v) = v"
  by (auto simp: clip8_def uint_word_of_int take_bit_int_eq_self)

lemma to_py_of_py_alpha:
  assumes "to_py p = (r, g, b, a)" "0 \<le> v" "v \<le> 255"
  shows "to_py (of_py (r, g, b, v)) = (r, g, b, v)"
proof -
  obtain r0 g0 b0 a0 where p: "p = (r0, g0, b0, a0)" by (cases p) auto
  with assms(1) have "r = uint r0" "g = uint g0" "b = uint b0" by (simp_all add: to_py_def)
  then show ?thesis
    using assms(2,3) by (simp add: of_py_def to_py_def clip8_uint uint_clip8)
qed

lemma to_py_inject: "to_py p = to_py q \<Longrightarrow> p = q"
  by (metis of_py_to_py)

lemma ramp_alpha_bounds:
  assumes "35 \<le> d" "d < 105"
  shows "0 \<le> ramp_alpha d" "ramp_alpha d \<le> 255"
  using assms by (simp_all add: ramp_alpha_floor)

lemma to_py_sprite_pixel:
  assumes "to_py p = (r, g, b, a)"
  shows "to_py (sprite_pixel avg p) =
    (let d = distance avg (r, g, b, a) in
     if d < 35 then (r, g, b, 0)
     else if d < 105 then (r, g, b, (d - 35) * 255 div 70)
     else (r, g, b, a))"
proof -
  let ?d = "distance avg (r, g, b, a)"
  consider "?d < 35" | "35 \<le> ?d" "?d < 105" | "105 \<le> ?d" by linarith
  then show ?thesis
  proof cases
    case 1
    then show ?thesis
      using assms to_py_of_py_alpha [OF assms, of 0]
      by (simp add: sprite_pixel_def tolerance_def Let_def)
  next
    case 2
    have "to_py (of_py (r, g, b, ramp_alpha ?d)) = (r, g, b, ramp_alpha ?d)"
      by (rule to_py_of_py_alpha [OF assms]) (use 2 ramp_alpha_bounds in auto)
    with 2 show ?thesis
      using assms by (simp add: sprite_pixel_def tolerance_def Let_def ramp_alpha_floor)
  next
    case 3
    then show ?thesis
      using assms by (simp add: sprite_pixel_def tolerance_def Let_def)
  qed
qed

lemma distance_rgb: "distance avg (r, g, b, a) = distance avg (r, g, b, a')"
  by (cases avg) (simp add: distance_def)

lemma sprite_pixel_idem: "sprite_pixel avg (sprite_pixel avg p) = sprite_pixel avg p"
proof (rule to_py_inject)
  obtain r g b a where p: "to_py p = (r, g, b, a)" by (cases "to_py p") auto
  let ?d = "distance avg (r, g, b, a)"
  have q: "to_py (sprite_pixel avg p) =
      (if ?d < 35 then (r, g, b, 0) else if ?d < 105 then (r, g, b, (?d - 35) * 255 div 70)
       else (r, g, b, a))"
    using to_py_sprite_pixel [OF p, of avg] by (simp add: Let_def)
  consider "?d < 35" | "35 \<le> ?d" "?d < 105" | "105 \<le> ?d" by linarith
  then show "to_py (sprite_pixel avg (sprite_pixel avg p)) = to_py (sprite_pixel avg p)"
  proof cases
    case 1
    with q have "to_py (sprite_pixel avg p) = (r, g, b, 0)" by simp
    from to_py_sprite_pixel [OF this, of avg] 1 show ?thesis
      using q distance_rgb [of avg r g b 0 a] by (simp add: Let_def)
  next
    case 2
    with q have "to_py (sprite_pixel avg p) = (r, g, b, (?d - 35) * 255 div 70)" by simp
    from to_py_sprite_pixel [OF this, of avg] 2 show ?thesis
      using q distance_rgb [of avg r g b "(?d - 35) * 255 div 70" a] by (simp add: Let_def)
  next
    case 3
    with q have "to_py (sprite_pixel avg p) = (r, g, b, a)" by simp
    from to_py_sprite_pixel [OF this, of avg] 3 show ?thesis
      using q by (simp add: Let_def)
  qed
qed


section \<open>The sample strip\<close>

lemma floor_ramp_alpha_div:
  assumes "35 \<le> d" "d < 105"
  shows "floor_ramp_alpha d = (d - 35) * 255 div 70"
proof -
  have "(of_int (d - 35) :: rat) / (2 * 35) * 255 = of_int ((d - 35) * 255) / of_int 70"
    by simp
  then have "\<lfloor>(of_int (d - 35) :: rat) / (2 * 35) * 255\<rfloor> = (d - 35) * 255 div 70"
    by (simp only: floor_divide_of_int_eq)
  moreover have "0 \<le> (d - 35) * 255 div 70" using assms by simp
  moreover have "(d - 35) * 255 div 70 \<le> 255" using assms by simp
  ultimately show ?thesis by (simp add: floor_ramp_alpha_def)
qed

lemma spec_ramp_alpha_36: "spec_ramp_alpha 36 = 4"
  by (simp add: spec_ramp_alpha_def round_def floor_eq_iff)

lemma wf_strip: "wf_image strip"
  by (simp add: wf_image_def strip_def)

lemma corners_strip: "corners strip = Inr white4"
  by (simp add: corners_nonempty strip_def pixel_at_def to_py_def white4_def)

lemma average_white4: "average white4 = (255, 255, 255)"
  by (simp add: average_def white4_def)

lemma process_strip: "process_sprite_sheet strip = Inr strip_out"
  by (simp add: process_sprite_sheet_map [OF wf_strip corners_strip] average_white4)
     (simp add: strip_def strip_out_def sprite_pixel_def to_py_def of_py_def distance_def
        tolerance_def clip8_def ramp_alpha_table)


section \<open>Properties of \<^verbatim>\<open>process_sprite_sheet\<close>\<close>

lemma process_sprite_sheet_Inr:
  assumes "process_sprite_sheet img = Inr out"
  obtains cs where "corners img = Inr cs"
  using assms by (cases "corners img") (simp_all add: process_sprite_sheet_def and_then_def)

lemma rgb_sprite_pixel: "rgb (to_py (sprite_pixel avg p)) = rgb (to_py p)"
proof -
  obtain r g b a where p: "to_py p = (r, g, b, a)" by (cases "to_py p") auto
  show ?thesis
    using to_py_sprite_pixel [OF p, of avg] by (simp add: p rgb_def Let_def)
qed

lemma alpha_byte: "0 \<le> alpha (to_py p) \<and> alpha (to_py p) \<le> 255"
proof -
  obtain r g b a where p: "p = (r, g, b, a)" by (cases p) auto
  have "uint a < 256" using uint_bounded [of a] by simp
  then show ?thesis by (simp add: p alpha_def to_py_def)
qed

lemma alpha_sprite_pixel:
  "alpha (to_py (sprite_pixel avg p)) =
     (let d = distance avg (to_py p) in
      if d < 35 then 0 else if d < 105 then (d - 35) * 255 div 70 else alpha (to_py p))"
proof -
  obtain r g b a where p: "to_py p = (r, g, b, a)" by (cases "to_py p") auto
  show ?thesis
    using to_py_sprite_pixel [OF p, of avg] by (simp add: p alpha_def Let_def)
qed

text \<open>
  Claim C3. Whenever \<^verbatim>\<open>process_sprite_sheet\<close> returns an image, that image has the width,
  the height and the number of pixels of the input, and every pixel of it has the red, green and
  blue of the input pixel at the same place, whichever branch classified it: only alpha can
  differ.
\<close>

theorem process_sprite_sheet_keeps_rgb:
  assumes "wf_image img" "process_sprite_sheet img = Inr out"
  shows "width out = width img \<and> height out = height img \<and>
         length (data out) = length (data img) \<and>
         (\<forall>i<length (data img). rgb (to_py (data out ! i)) = rgb (to_py (data img ! i)))"
proof -
  from assms(2) obtain cs where cs: "corners img = Inr cs"
    by (rule process_sprite_sheet_Inr)
  have "out = img\<lparr>data := map (sprite_pixel (average cs)) (data img)\<rparr>"
    using process_sprite_sheet_map [OF assms(1) cs] assms(2) by simp
  then show ?thesis by (simp add: rgb_sprite_pixel)
qed

text \<open>
  Claim C1, as the code has it. Take a well-formed image on which \<^verbatim>\<open>process_sprite_sheet\<close>
  returns, and a pixel whose Manhattan distance \<open>d\<close> to the corner average lies in the ramp,
  \<open>35 \<le> d < 105\<close>. The pixel keeps its red, green and blue, and its new alpha is
  \<open>clamp(0, 255, \<lfloor>(d - 35) / 70 \<times> 255\<rfloor>)\<close>: \<^verbatim>\<open>int(...)\<close> truncates the quotient, it
  does not round it.
\<close>

theorem process_sprite_sheet_ramp:
  assumes "wf_image img" "corners img = Inr cs" "process_sprite_sheet img = Inr out"
    and "i < length (data img)" "to_py (data img ! i) = (r, g, b, a)"
    and "tolerance \<le> distance (average cs) (r, g, b, a)"
    and "distance (average cs) (r, g, b, a) < 3 * tolerance"
  shows "to_py (data out ! i) = (r, g, b, floor_ramp_alpha (distance (average cs) (r, g, b, a)))"
proof -
  let ?d = "distance (average cs) (r, g, b, a)"
  have d: "35 \<le> ?d" "?d < 105" using assms(6,7) by (simp_all add: tolerance_def)
  have "out = img\<lparr>data := map (sprite_pixel (average cs)) (data img)\<rparr>"
    using process_sprite_sheet_map [OF assms(1,2)] assms(3) by simp
  then have "to_py (data out ! i) = to_py (sprite_pixel (average cs) (data img ! i))"
    using assms(4) by simp
  also have "\<dots> = (r, g, b, (?d - 35) * 255 div 70)"
    using to_py_sprite_pixel [OF assms(5), of "average cs"] d by (simp add: Let_def)
  finally show ?thesis by (simp add: floor_ramp_alpha_div [OF d])
qed

text \<open>
  Claim C8, as the code has it. A pixel at distance exactly \<open>35\<close> from the corner average fails
  the test \<open>dist < 35\<close> and passes \<open>dist < 105\<close>, so it gets the alpha of the ramp, which is
  0 there. A pixel at distance exactly \<open>105\<close> is left entirely as it was: red, green, blue and
  alpha. It is therefore fully opaque exactly when it was so in the input.
\<close>

theorem process_sprite_sheet_boundaries:
  assumes "wf_image img" "corners img = Inr cs" "process_sprite_sheet img = Inr out"
    and "i < length (data img)" "to_py (data img ! i) = (r, g, b, a)"
  shows "(distance (average cs) (r, g, b, a) = tolerance \<longrightarrow>
            \<not> distance (average cs) (r, g, b, a) < tolerance \<and>
            distance (average cs) (r, g, b, a) < tolerance * 3 \<and>
            to_py (data out ! i) = (r, g, b, ramp_alpha tolerance) \<and> ramp_alpha tolerance = 0) \<and>
         (distance (average cs) (r, g, b, a) = 3 * tolerance \<longrightarrow>
            data out ! i = data img ! i \<and> to_py (data out ! i) = (r, g, b, a))"
proof -
  let ?d = "distance (average cs) (r, g, b, a)"
  have "out = img\<lparr>data := map (sprite_pixel (average cs)) (data img)\<rparr>"
    using process_sprite_sheet_map [OF assms(1,2)] assms(3) by simp
  then have out: "data out ! i = sprite_pixel (average cs) (data img ! i)"
    using assms(4) by simp
  have zero: "ramp_alpha tolerance = 0"
    by (simp add: tolerance_def ramp_alpha_floor)
  have "to_py (data out ! i) = (r, g, b, ramp_alpha tolerance)" if "?d = tolerance"
    using to_py_sprite_pixel [OF assms(5), of "average cs"] that zero
    by (simp add: out tolerance_def Let_def)
  moreover have "data out ! i = data img ! i" if "?d = 3 * tolerance"
  proof (rule to_py_inject)
    show "to_py (data out ! i) = to_py (data img ! i)"
      using to_py_sprite_pixel [OF assms(5), of "average cs"] that
      by (simp add: out tolerance_def Let_def assms(5))
  qed
  ultimately show ?thesis using zero assms(5) by (simp add: tolerance_def)
qed

text \<open>
  Claim C6, as the code has it. For two pixels of one image with distances \<open>d\<^sub>i < d\<^sub>j\<close> to
  the corner average, the output alpha of the first is at most the output alpha of the second,
  provided the second lies below \<open>3 \<times> 35\<close> or was fully opaque in the input. A pixel at
  distance \<open>3 \<times> 35\<close> or more keeps the alpha it came with, whatever that is.
\<close>

theorem process_sprite_sheet_monotone:
  assumes "wf_image img" "corners img = Inr cs" "process_sprite_sheet img = Inr out"
    and "i < length (data img)" "j < length (data img)"
    and "distance (average cs) (to_py (data img ! i)) < distance (average cs) (to_py (data img ! j))"
    and "distance (average cs) (to_py (data img ! j)) < 3 * tolerance
         \<or> alpha (to_py (data img ! j)) = 255"
  shows "alpha (to_py (data out ! i)) \<le> alpha (to_py (data out ! j))"
proof -
  let ?f = "sprite_pixel (average cs)"
  let ?di = "distance (average cs) (to_py (data img ! i))"
  let ?dj = "distance (average cs) (to_py (data img ! j))"
  have "out = img\<lparr>data := map ?f (data img)\<rparr>"
    using process_sprite_sheet_map [OF assms(1,2)] assms(3) by simp
  then have out: "data out ! i = ?f (data img ! i)" "data out ! j = ?f (data img ! j)"
    using assms(4,5) by simp_all
  have ai: "alpha (to_py (?f (data img ! i))) =
      (if ?di < 35 then 0 else if ?di < 105 then (?di - 35) * 255 div 70
       else alpha (to_py (data img ! i)))"
    using alpha_sprite_pixel [of "average cs" "data img ! i"] by (simp add: Let_def)
  have aj: "alpha (to_py (?f (data img ! j))) =
      (if ?dj < 35 then 0 else if ?dj < 105 then (?dj - 35) * 255 div 70
       else alpha (to_py (data img ! j)))"
    using alpha_sprite_pixel [of "average cs" "data img ! j"] by (simp add: Let_def)
  show ?thesis
  proof (cases "?dj < 105")
    case True
    with assms(6) have "?di < 105" by simp
    moreover have "(?di - 35) * 255 div 70 \<le> (?dj - 35) * 255 div 70"
      using assms(6) by (intro zdiv_mono1) simp_all
    moreover have "0 \<le> (?dj - 35) * 255 div 70" if "35 \<le> ?dj"
      using that by simp
    ultimately show ?thesis
      using True assms(6) by (simp add: out ai aj)
  next
    case False
    with assms(7) have full: "alpha (to_py (data img ! j)) = 255"
      by (simp add: tolerance_def)
    have "alpha (to_py (?f (data img ! i))) \<le> 255"
      using alpha_byte [of "?f (data img ! i)"] by simp
    with False full show ?thesis by (simp add: out aj)
  qed
qed

text \<open>
  Claim C5. On an image of width 0 or height 0, \<^verbatim>\<open>process_sprite_sheet\<close> raises at its
  first corner read, so \<^verbatim>\<open>img.save\<close> is never reached and no image comes out. The
  exception is the pixel accessor's \<^verbatim>\<open>IndexError\<close>, which is the invalid-input failure of
  this function. On every well-formed image of positive width and height it returns an image.
\<close>

theorem process_sprite_sheet_failure:
  "(width img = 0 \<or> height img = 0 \<longrightarrow> process_sprite_sheet img = Inl IndexError) \<and>
   (wf_image img \<and> 0 < width img \<and> 0 < height img \<longrightarrow>
      (\<exists>out. process_sprite_sheet img = Inr out))"
proof (intro conjI impI)
  assume "width img = 0 \<or> height img = 0"
  then show "process_sprite_sheet img = Inl IndexError"
    by (rule process_sprite_sheet_empty)
next
  assume a: "wf_image img \<and> 0 < width img \<and> 0 < height img"
  then obtain cs where "corners img = Inr cs"
    using corners_nonempty [of img] by simp
  with a show "\<exists>out. process_sprite_sheet img = Inr out"
    using process_sprite_sheet_map [of img cs] by simp
qed


section \<open>Idempotence and the background estimate\<close>

lemma average_rgb:
  assumes "map rgb cs = map rgb cs'"
  shows "average cs = average cs'"
proof -
  have sel: "(\<lambda>(r, g, b, a). r) = fst \<circ> rgb" "(\<lambda>(r, g, b, a). g) = (fst \<circ> snd) \<circ> rgb"
    "(\<lambda>(r, g, b, a). b) = (snd \<circ> snd) \<circ> rgb"
    by (auto simp: rgb_def fun_eq_iff)
  have "map (h \<circ> rgb) cs = map (h \<circ> rgb) cs'" for h :: "int \<times> int \<times> int \<Rightarrow> int"
    using arg_cong [OF assms, of "map h"] by simp
  then show ?thesis
    unfolding average_def sel by simp
qed

lemma pixel_at_map:
  assumes "wf_image img" "x < width img" "y < height img"
  shows "pixel_at (img\<lparr>data := map f (data img)\<rparr>) x y = to_py (f (data img ! (y * width img + x)))"
  using assms index_bound [of x "width img" y "height img"]
  by (simp add: pixel_at_def wf_image_def)

text \<open>
  Claim C7. On a well-formed image of positive width and height \<^verbatim>\<open>process_sprite_sheet\<close>
  returns an image, and run on that image it returns the very same image.
\<close>

theorem process_sprite_sheet_idempotent:
  assumes "wf_image img" "0 < width img" "0 < height img"
  shows "\<exists>out. process_sprite_sheet img = Inr out \<and> process_sprite_sheet out = Inr out"
proof -
  let ?cs = "[pixel_at img 0 0, pixel_at img (width img - 1) 0,
              pixel_at img 0 (height img - 1), pixel_at img (width img - 1) (height img - 1)]"
  let ?f = "sprite_pixel (average ?cs)"
  let ?out = "img\<lparr>data := map ?f (data img)\<rparr>"
  let ?cs' = "[pixel_at ?out 0 0, pixel_at ?out (width img - 1) 0,
               pixel_at ?out 0 (height img - 1), pixel_at ?out (width img - 1) (height img - 1)]"
  have cs: "corners img = Inr ?cs" by (rule corners_nonempty [OF assms(2,3)])
  have first: "process_sprite_sheet img = Inr ?out"
    by (rule process_sprite_sheet_map [OF assms(1) cs])
  have wf: "wf_image ?out" using assms(1) by (simp add: wf_image_def)
  have cs': "corners ?out = Inr ?cs'"
    using corners_nonempty [of ?out] assms(2,3) by simp
  have same: "rgb (pixel_at ?out x y) = rgb (pixel_at img x y)"
    if "x < width img" "y < height img" for x y
    using pixel_at_map [OF assms(1) that, of ?f] by (simp add: rgb_sprite_pixel pixel_at_def)
  have "map rgb ?cs' = map rgb ?cs"
    using assms(2,3) same [of 0 0] same [of "width img - 1" 0] same [of 0 "height img - 1"]
      same [of "width img - 1" "height img - 1"]
    by simp
  then have avg: "average ?cs' = average ?cs" by (rule average_rgb)
  have "process_sprite_sheet ?out = Inr (?out\<lparr>data := map (sprite_pixel (average ?cs')) (data ?out)\<rparr>)"
    by (rule process_sprite_sheet_map [OF wf cs'])
  also have "\<dots> = Inr ?out"
    unfolding avg by (simp add: sprite_pixel_idem comp_def)
  finally show ?thesis using first by blast
qed

text \<open>
  Claim C9, as the code has it. On a well-formed image of positive width and height the four
  corner reads succeed and give the pixels at \<open>(0, 0)\<close>, \<open>(width - 1, 0)\<close>, \<open>(0, height - 1)\<close>
  and \<open>(width - 1, height - 1)\<close>; the estimate is, channel by channel, the floor of a quarter of
  their sum; and \<^verbatim>\<open>process_sprite_sheet\<close> returns. On a 1\<times>1 image the estimate is the colour
  of the only pixel. On an image one pixel wide (or one pixel high) the corners coincide in
  pairs, and the estimate is the floor of the mean of the two end pixels.
\<close>

theorem background_estimate:
  assumes "wf_image img" "0 < width img" "0 < height img"
    and "pixel_at img 0 0 = (r0, g0, b0, a0)"
    and "pixel_at img (width img - 1) 0 = (r1, g1, b1, a1)"
    and "pixel_at img 0 (height img - 1) = (r2, g2, b2, a2)"
    and "pixel_at img (width img - 1) (height img - 1) = (r3, g3, b3, a3)"
  shows "corners img = Inr [(r0, g0, b0, a0), (r1, g1, b1, a1), (r2, g2, b2, a2), (r3, g3, b3, a3)]
    \<and> average [(r0, g0, b0, a0), (r1, g1, b1, a1), (r2, g2, b2, a2), (r3, g3, b3, a3)]
        = ((r0 + r1 + r2 + r3) div 4, (g0 + g1 + g2 + g3) div 4, (b0 + b1 + b2 + b3) div 4)
    \<and> (width img = 1 \<and> height img = 1 \<longrightarrow>
         average [(r0, g0, b0, a0), (r1, g1, b1, a1), (r2, g2, b2, a2), (r3, g3, b3, a3)]
          = (r0, g0, b0))
    \<and> (width img = 1 \<longrightarrow>
         average [(r0, g0, b0, a0), (r1, g1, b1, a1), (r2, g2, b2, a2), (r3, g3, b3, a3)]
          = ((r0 + r2) div 2, (g0 + g2) div 2, (b0 + b2) div 2))
    \<and> (height img = 1 \<longrightarrow>
         average [(r0, g0, b0, a0), (r1, g1, b1, a1), (r2, g2, b2, a2), (r3, g3, b3, a3)]
          = ((r0 + r1) div 2, (g0 + g1) div 2, (b0 + b1) div 2))
    \<and> (\<exists>out. process_sprite_sheet img = Inr out)"
proof -
  have cs: "corners img = Inr [(r0, g0, b0, a0), (r1, g1, b1, a1), (r2, g2, b2, a2), (r3, g3, b3, a3)]"
    using corners_nonempty [OF assms(2,3)] assms(4-7) by simp
  have one: "(r1, g1, b1, a1) = (r0, g0, b0, a0) \<and> (r3, g3, b3, a3) = (r2, g2, b2, a2)"
    if "width img = 1"
    using that assms(4-7) by simp
  have dot: "(r2, g2, b2, a2) = (r0, g0, b0, a0) \<and> (r3, g3, b3, a3) = (r1, g1, b1, a1)"
    if "height img = 1"
    using that assms(4-7) by simp
  have "\<exists>out. process_sprite_sheet img = Inr out"
    using process_sprite_sheet_map [OF assms(1) cs] by simp
  with cs one dot show ?thesis
    by (auto simp: average_def)
qed


section \<open>Properties of \<^verbatim>\<open>remove_white_background\<close>\<close>

lemma fold_modify_at_image:
  "fold (modify_at f) ks img = img\<lparr>data := fold (\<lambda>k d. d[k := f (d ! k)]) ks (data img)\<rparr>"
  by (induction ks arbitrary: img) (simp_all add: modify_at_def)

lemma white_step_of_py:
  "map of_py (white_step tol (to_py p) acc) = map of_py acc @ [white_pixel tol p]"
proof -
  obtain r g b a where p: "to_py p = (r, g, b, a)" by (cases "to_py p") auto
  have "of_py (r, g, b, a) = p" using of_py_to_py [of p] by (simp add: p)
  then show ?thesis by (simp add: white_step_def white_pixel_def p)
qed

lemma fold_white_step:
  "map of_py (fold (white_step tol) (map to_py ps) acc) = map of_py acc @ map (white_pixel tol) ps"
  by (induction ps arbitrary: acc) (simp_all add: white_step_of_py)

lemma remove_white_background_map:
  "remove_white_background img tol = img\<lparr>data := map (white_pixel tol) (data img)\<rparr>"
  using fold_white_step [of tol "data img" "[]"]
  by (simp add: remove_white_background_def putdata_def getdata_def)

lemma to_py_white_pixel:
  assumes "to_py p = (r, g, b, a)"
  shows "to_py (white_pixel tol p) =
    (if r > 255 - tol \<and> g > 255 - tol \<and> b > 255 - tol then (r, g, b, 0) else (r, g, b, a))"
  using assms to_py_of_py_alpha [OF assms, of 0] by (simp add: white_pixel_def)

lemma white_pixel_clear:
  "white_pixel tol p = (if whitish tol p then clear_pixel p else p)"
  by (cases "to_py p") (simp add: white_pixel_def whitish_def clear_pixel_def is_white_ish_def)

lemma clear_pixel_idem: "clear_pixel (clear_pixel p) = clear_pixel p"
proof -
  obtain r g b a where p: "to_py p = (r, g, b, a)" by (cases "to_py p") auto
  have "to_py (clear_pixel p) = (r, g, b, 0)"
    using to_py_of_py_alpha [OF p, of 0] by (simp add: clear_pixel_def p)
  then show ?thesis by (simp add: clear_pixel_def p)
qed

text \<open>
  Claim C4. \<^verbatim>\<open>remove_white_background\<close> with tolerance \<open>t\<close> keeps the shape of the image
  and turns the pixel \<open>(r, g, b, a)\<close> into \<open>(r, g, b, 0)\<close> when \<open>r > 255 - t\<close>,
  \<open>g > 255 - t\<close> and \<open>b > 255 - t\<close>, and leaves it as it is, alpha included, otherwise.
  Called without a tolerance it uses 30.
\<close>

theorem remove_white_background_pixels:
  "width (remove_white_background img t) = width img \<and>
   height (remove_white_background img t) = height img \<and>
   length (data (remove_white_background img t)) = length (data img) \<and>
   (\<forall>i<length (data img). \<forall>r g b a. to_py (data img ! i) = (r, g, b, a) \<longrightarrow>
      to_py (data (remove_white_background img t) ! i) =
        (if r > 255 - t \<and> g > 255 - t \<and> b > 255 - t then (r, g, b, 0) else (r, g, b, a))) \<and>
   remove_white_background_default img = remove_white_background img 30"
  by (simp add: remove_white_background_map to_py_white_pixel remove_white_background_default_def)

text \<open>
  Claim C10. With a tolerance of 256 or more, \<open>255 - tolerance\<close> is negative and every channel
  value exceeds it: \<^verbatim>\<open>remove_white_background\<close>, which never raises, gives every pixel of
  every image alpha 0 and keeps its colour.
\<close>

theorem remove_white_background_large_tolerance:
  assumes "256 \<le> t"
  shows "length (data (remove_white_background img t)) = length (data img) \<and>
         (\<forall>i<length (data img).
            alpha (to_py (data (remove_white_background img t) ! i)) = 0 \<and>
            rgb (to_py (data (remove_white_background img t) ! i)) = rgb (to_py (data img ! i)))"
proof -
  have "alpha (to_py (white_pixel t p)) = 0 \<and> rgb (to_py (white_pixel t p)) = rgb (to_py p)" for p
  proof -
    obtain r g b a where p: "p = (r, g, b, a)" by (cases p) auto
    have py: "to_py p = (uint r, uint g, uint b, uint a)" by (simp add: p to_py_def)
    have "255 - t < uint r" "255 - t < uint g" "255 - t < uint b"
      using assms by (simp_all add: order.strict_trans2 [of "255 - t" 0])
    then show ?thesis
      using to_py_white_pixel [OF py, of t] by (simp add: py alpha_def rgb_def)
  qed
  then show ?thesis by (simp add: remove_white_background_map)
qed


section \<open>The properties on the sample images\<close>

lemma wf_edge_strip: "wf_image edge_strip"
  by (simp add: wf_image_def edge_strip_def)

lemma corners_edge_strip: "corners edge_strip = Inr white4"
  by (simp add: corners_nonempty edge_strip_def pixel_at_def to_py_def white4_def)

lemma process_edge_strip: "process_sprite_sheet edge_strip = Inr edge_strip_out"
  by (simp add: process_sprite_sheet_map [OF wf_edge_strip corners_edge_strip] average_white4)
     (simp add: edge_strip_def edge_strip_out_def sprite_pixel_def to_py_def of_py_def distance_def
        tolerance_def clip8_def ramp_alpha_table)

lemma strip_pixels:
  "to_py (data strip ! 0) = (255, 255, 255, 255)"
  "to_py (data strip ! 1) = (219, 255, 255, 255)"
  "to_py (data strip ! 2) = (0, 0, 0, 0)"
  "to_py (data strip_out ! 0) = (255, 255, 255, 0)"
  "to_py (data strip_out ! 1) = (219, 255, 255, 3)"
  "to_py (data strip_out ! 2) = (0, 0, 0, 0)"
  "length (data strip) = 4"
  by (simp_all add: strip_def strip_out_def to_py_def)

lemma edge_strip_pixels:
  "to_py (data edge_strip ! 1) = (220, 255, 255, 255)"
  "to_py (data edge_strip ! 2) = (150, 255, 255, 77)"
  "length (data edge_strip) = 4"
  by (simp_all add: edge_strip_def to_py_def)

lemma edge_strip_out_pixels:
  "to_py (data edge_strip_out ! 1) = (220, 255, 255, 0)"
  "to_py (data edge_strip_out ! 2) = (150, 255, 255, 77)"
  by (simp_all add: edge_strip_out_def to_py_def)

lemma distance_white:
  "distance (255, 255, 255) (r, g, b, a) = \<bar>r - 255\<bar> + \<bar>g - 255\<bar> + \<bar>b - 255\<bar>"
  by (simp add: distance_def)

theorem process_sprite_sheet_keeps_rgb_witness:
  "wf_image strip \<and> process_sprite_sheet strip = Inr strip_out \<and>
   width strip_out = width strip \<and> height strip_out = height strip \<and>
   length (data strip_out) = length (data strip) \<and>
   rgb (to_py (data strip_out ! 1)) = rgb (to_py (data strip ! 1))"
  using process_sprite_sheet_keeps_rgb [OF wf_strip process_strip] wf_strip process_strip
  by (simp add: strip_pixels)

theorem process_sprite_sheet_ramp_witness:
  "wf_image strip \<and> corners strip = Inr white4 \<and> process_sprite_sheet strip = Inr strip_out \<and>
   1 < length (data strip) \<and> to_py (data strip ! 1) = (219, 255, 255, 255) \<and>
   distance (average white4) (219, 255, 255, 255) = 36 \<and> tolerance \<le> 36 \<and> 36 < 3 * tolerance \<and>
   to_py (data strip_out ! 1) = (219, 255, 255, floor_ramp_alpha 36) \<and> floor_ramp_alpha 36 = 3"
proof -
  have d: "distance (average white4) (219, 255, 255, 255) = 36"
    by (simp add: average_white4 distance_white)
  have i: "1 < length (data strip)" by (simp add: strip_pixels)
  have lo: "tolerance \<le> distance (average white4) (219, 255, 255, 255)"
    and hi: "distance (average white4) (219, 255, 255, 255) < 3 * tolerance"
    by (simp_all add: d tolerance_def)
  have "floor_ramp_alpha 36 = 3" by (simp add: floor_ramp_alpha_div)
  then show ?thesis
    using process_sprite_sheet_ramp [OF wf_strip corners_strip process_strip i strip_pixels(2) lo hi]
      wf_strip corners_strip process_strip i strip_pixels(2) d lo hi
    by simp
qed

text \<open>
  With rounding, as the claim C1 is worded, the pixel at distance 36 of the sample strip would
  get alpha 4; the code gives it 3.
\<close>

theorem process_sprite_sheet_ramp_counterexample:
  "wf_image strip \<and> corners strip = Inr white4 \<and> process_sprite_sheet strip = Inr strip_out \<and>
   distance (average white4) (to_py (data strip ! 1)) = 36 \<and> tolerance \<le> 36 \<and> 36 < 3 * tolerance \<and>
   alpha (to_py (data strip_out ! 1)) = 3 \<and> spec_ramp_alpha 36 = 4 \<and>
   alpha (to_py (data strip_out ! 1))
     \<noteq> spec_ramp_alpha (distance (average white4) (to_py (data strip ! 1)))"
  by (simp add: wf_strip corners_strip process_strip strip_pixels [unfolded One_nat_def]
      average_white4 distance_white tolerance_def alpha_def spec_ramp_alpha_36)

theorem process_sprite_sheet_boundaries_witness:
  "wf_image edge_strip \<and> corners edge_strip = Inr white4 \<and>
   process_sprite_sheet edge_strip = Inr edge_strip_out \<and>
   distance (average white4) (220, 255, 255, 255) = tolerance \<and>
   to_py (data edge_strip ! 1) = (220, 255, 255, 255) \<and>
   to_py (data edge_strip_out ! 1) = (220, 255, 255, 0) \<and>
   distance (average white4) (150, 255, 255, 77) = 3 * tolerance \<and>
   to_py (data edge_strip ! 2) = (150, 255, 255, 77) \<and>
   data edge_strip_out ! 2 = data edge_strip ! 2 \<and>
   to_py (data edge_strip_out ! 2) = (150, 255, 255, 77)"
proof -
  have d1: "distance (average white4) (220, 255, 255, 255) = tolerance"
    and d2: "distance (average white4) (150, 255, 255, 77) = 3 * tolerance"
    by (simp_all add: average_white4 distance_white tolerance_def)
  have i: "1 < length (data edge_strip)" "2 < length (data edge_strip)"
    by (simp_all add: edge_strip_pixels)
  show ?thesis
    using process_sprite_sheet_boundaries [OF wf_edge_strip corners_edge_strip process_edge_strip
        i(1) edge_strip_pixels(1)]
      process_sprite_sheet_boundaries [OF wf_edge_strip corners_edge_strip process_edge_strip
        i(2) edge_strip_pixels(2)]
      wf_edge_strip corners_edge_strip process_edge_strip d1 d2 edge_strip_pixels
    by simp
qed

text \<open>
  A pixel at distance 105 that comes in with alpha 77 goes out with alpha 77, not 255: claim C8
  calls it fully opaque.
\<close>

theorem process_sprite_sheet_boundaries_counterexample:
  "wf_image edge_strip \<and> corners edge_strip = Inr white4 \<and>
   process_sprite_sheet edge_strip = Inr edge_strip_out \<and>
   distance (average white4) (to_py (data edge_strip ! 2)) = 3 * tolerance \<and>
   alpha (to_py (data edge_strip ! 2)) = 77 \<and>
   alpha (to_py (data edge_strip_out ! 2)) = 77 \<and>
   alpha (to_py (data edge_strip_out ! 2)) \<noteq> 255"
  by (simp add: wf_edge_strip corners_edge_strip process_edge_strip edge_strip_pixels
      edge_strip_out_pixels average_white4 distance_white tolerance_def alpha_def)

theorem process_sprite_sheet_monotone_witness:
  "wf_image strip \<and> corners strip = Inr white4 \<and> process_sprite_sheet strip = Inr strip_out \<and>
   distance (average white4) (to_py (data strip ! 0)) = 0 \<and>
   distance (average white4) (to_py (data strip ! 1)) = 36 \<and> 36 < 3 * tolerance \<and>
   alpha (to_py (data strip_out ! 0)) \<le> alpha (to_py (data strip_out ! 1))"
proof -
  have d: "distance (average white4) (to_py (data strip ! 0)) = 0"
    "distance (average white4) (to_py (data strip ! 1)) = 36"
    by (simp_all add: average_white4 distance_white strip_pixels [unfolded One_nat_def])
  have i: "0 < length (data strip)" "1 < length (data strip)" by (simp_all add: strip_pixels)
  have lt: "distance (average white4) (to_py (data strip ! 0))
      < distance (average white4) (to_py (data strip ! 1))"
    unfolding d by simp
  have side: "distance (average white4) (to_py (data strip ! 1)) < 3 * tolerance
      \<or> alpha (to_py (data strip ! 1)) = 255"
    unfolding d by (simp add: tolerance_def)
  show ?thesis
    using process_sprite_sheet_monotone [OF wf_strip corners_strip process_strip i lt side]
      wf_strip corners_strip process_strip d [unfolded One_nat_def]
    by (simp add: tolerance_def)
qed

text \<open>
  Without the proviso the claim C6 fails: in the sample strip the pixel at distance 36 ends with
  alpha 3, and the transparent black pixel at distance 765 keeps its alpha 0.
\<close>

theorem process_sprite_sheet_monotone_counterexample:
  "wf_image strip \<and> corners strip = Inr white4 \<and> process_sprite_sheet strip = Inr strip_out \<and>
   distance (average white4) (to_py (data strip ! 1)) = 36 \<and>
   distance (average white4) (to_py (data strip ! 2)) = 765 \<and>
   alpha (to_py (data strip_out ! 1)) = 3 \<and> alpha (to_py (data strip_out ! 2)) = 0 \<and>
   \<not> alpha (to_py (data strip_out ! 1)) \<le> alpha (to_py (data strip_out ! 2))"
  by (simp add: wf_strip corners_strip process_strip strip_pixels [unfolded One_nat_def]
      average_white4 distance_white alpha_def)

theorem process_sprite_sheet_idempotent_witness:
  "wf_image strip \<and> 0 < width strip \<and> 0 < height strip \<and>
   process_sprite_sheet strip = Inr strip_out \<and> process_sprite_sheet strip_out = Inr strip_out"
proof -
  have pos: "0 < width strip" "0 < height strip" by (simp_all add: strip_def)
  from process_sprite_sheet_idempotent [OF wf_strip pos] process_strip
  have "process_sprite_sheet strip_out = Inr strip_out" by auto
  with wf_strip pos process_strip show ?thesis by simp
qed

theorem process_sprite_sheet_failure_witness:
  "(width no_pixels = 0 \<or> height no_pixels = 0) \<and>
   process_sprite_sheet no_pixels = Inl IndexError \<and>
   wf_image strip \<and> 0 < width strip \<and> 0 < height strip \<and>
   process_sprite_sheet strip = Inr strip_out"
proof -
  have z: "width no_pixels = 0 \<or> height no_pixels = 0" by (simp add: no_pixels_def)
  have pos: "0 < width strip" "0 < height strip" by (simp_all add: strip_def)
  show ?thesis
    using process_sprite_sheet_failure [of no_pixels] process_sprite_sheet_failure [of strip]
      z pos wf_strip process_strip
    by simp
qed


section \<open>The two whiteners agree\<close>

lemma edges_scan_step_in_range:
  assumes "x < width img" "y < height img"
  shows "edges_scan_step img tol y x acc = Inr (scan_add img tol (y, x) acc)"
proof -
  obtain r g b a where p: "to_py (data img ! (y * width img + x)) = (r, g, b, a)"
    by (cases "to_py (data img ! (y * width img + x))") auto
  show ?thesis
    using assms
    by (simp add: edges_scan_step_def pixels_get_in_range and_then_def scan_add_def whitish_def p)
qed

lemma edges_scan:
  "for_each [0..<height img] (\<lambda>y. for_each [0..<width img] (edges_scan_step img tol y)) []
   = Inr (fold (scan_add img tol)
            (concat (map (\<lambda>y. map (Pair y) [0..<width img]) [0..<height img])) [])"
proof -
  let ?row = "\<lambda>y. fold (\<lambda>x. scan_add img tol (y, x)) [0..<width img]"
  have inner: "for_each [0..<width img] (edges_scan_step img tol y) acc = Inr (?row y acc) \<and> True"
    if "y \<in> set [0..<height img]" for y acc
    by (rule for_each_fold [where I = "\<lambda>_. True"])
       (use that edges_scan_step_in_range in auto)
  have "for_each [0..<height img] (\<lambda>y. for_each [0..<width img] (edges_scan_step img tol y)) []
        = Inr (fold ?row [0..<height img] []) \<and> True"
    by (rule for_each_fold [where I = "\<lambda>_. True"]) (use inner in auto)
  moreover have "fold ?row [0..<height img]
      = fold (scan_add img tol) (concat (map (\<lambda>y. map (Pair y) [0..<width img]) [0..<height img]))"
    using fold_grid [of "scan_add img tol" Pair "[0..<width img]" "[0..<height img]"] by simp
  ultimately show ?thesis by simp
qed

lemma set_fold_scan_add:
  "set (fold (scan_add img tol) cs acc) =
     set acc \<union> {(int x, int y) | x y. (y, x) \<in> set cs \<and> whitish tol (data img ! (y * width img + x))}"
  by (induction cs arbitrary: acc) (auto simp: scan_add_def)

lemma set_grid: "set (concat (map (\<lambda>y. map (Pair y) xs) ys)) = set ys \<times> set xs"
  by auto

lemma set_scan:
  "set (fold (scan_add img tol)
          (concat (map (\<lambda>y. map (Pair y) [0..<width img]) [0..<height img])) [])
   = {(int x, int y) | x y. x < width img \<and> y < height img
        \<and> whitish tol (data img ! (y * width img + x))}"
  unfolding set_fold_scan_add set_grid by auto

lemma edges_apply_step_in_range:
  assumes "x < width s" "y < height s"
  shows "edges_apply_step (int x, int y) s = Inr (modify_at clear_pixel (y * width s + x) s)"
proof -
  obtain r g b a where p: "to_py (data s ! (y * width s + x)) = (r, g, b, a)"
    by (cases "to_py (data s ! (y * width s + x))") auto
  show ?thesis
    using assms
    by (simp add: edges_apply_step_def pixels_get_in_range pixels_set_in_range and_then_def
        modify_at_def clear_pixel_def p)
qed

lemma edges_apply:
  assumes "\<And>xy. xy \<in> set cs \<Longrightarrow>
      \<exists>x y. xy = (int x, int y) \<and> x < width img \<and> y < height img"
  shows "for_each cs edges_apply_step img
    = Inr (fold (modify_at clear_pixel) (map (\<lambda>(x, y). nat y * width img + nat x) cs) img)"
proof -
  let ?g = "\<lambda>xy. modify_at clear_pixel (case xy of (x, y) \<Rightarrow> nat y * width img + nat x)"
  have "for_each cs edges_apply_step img = Inr (fold ?g cs img) \<and> same_shape img (fold ?g cs img)"
  proof (rule for_each_fold [where I = "same_shape img"])
    fix xy s
    assume xy: "xy \<in> set cs" and s: "same_shape img s"
    from assms [OF xy] obtain x y where c: "xy = (int x, int y)" "x < width img" "y < height img"
      by blast
    with s have "edges_apply_step xy s = Inr (modify_at clear_pixel (y * width s + x) s)"
      using edges_apply_step_in_range [of x s y] by (simp add: same_shape_def)
    with s c show "edges_apply_step xy s = Inr (?g xy s) \<and> same_shape img (?g xy s)"
      by (simp add: same_shape_def modify_at_def)
  qed (rule same_shape_refl)
  moreover have "fold ?g cs img
      = fold (modify_at clear_pixel) (map (\<lambda>(x, y). nat y * width img + nat x) cs) img"
    by (simp add: fold_map comp_def)
  ultimately show ?thesis by simp
qed

lemma coordinates_of_index:
  assumes "j < w * h"
  shows "j mod w < w \<and> j div w < h \<and> j div w * w + j mod w = (j::nat)"
proof -
  have "0 < w" using assms by (cases w) auto
  moreover have "j div w < h" using assms by (simp add: less_mult_imp_div_less mult.commute)
  ultimately show ?thesis by simp
qed

text \<open>
  Claim C2. On every well-formed image and for every tolerance, \<^verbatim>\<open>remove_near_white_with_edges\<close>
  returns without raising, and what it returns is the image that \<^verbatim>\<open>remove_white_background\<close>
  returns for the same tolerance: every pixel has the same red, green, blue and alpha in both.
  This holds whatever the order in which the interpreter visits the set \<^verbatim>\<open>to_remove\<close>.
\<close>

theorem whiteners_agree:
  assumes "wf_image img" "\<forall>cs. set (iter cs) = set cs"
  shows "remove_near_white_with_edges iter img tol = Inr (remove_white_background img tol)"
proof -
  let ?w = "width img"
  let ?d = "data img"
  let ?tr = "fold (scan_add img tol)
      (concat (map (\<lambda>y. map (Pair y) [0..<?w]) [0..<height img])) []"
  let ?idx = "\<lambda>(x, y). nat y * ?w + nat x"
  let ?ks = "map ?idx (iter ?tr)"
  have mem: "set (iter ?tr) = {(int x, int y) | x y. x < ?w \<and> y < height img
        \<and> whitish tol (?d ! (y * ?w + x))}"
    using assms(2) set_scan [of img tol] by simp
  have "for_each (iter ?tr) edges_apply_step img = Inr (fold (modify_at clear_pixel) ?ks img)"
    by (rule edges_apply) (auto simp: mem)
  then have run: "remove_near_white_with_edges iter img tol
      = Inr (fold (modify_at clear_pixel) ?ks img)"
    by (simp add: remove_near_white_with_edges_def edges_scan and_then_def)
  have ks: "j \<in> set ?ks \<longleftrightarrow> whitish tol (?d ! j)" if "j < length ?d" for j
  proof
    assume "j \<in> set ?ks"
    then obtain x y where "x < ?w" "y < height img" "whitish tol (?d ! (y * ?w + x))"
      "j = y * ?w + x"
      by (auto simp: mem)
    then show "whitish tol (?d ! j)" by simp
  next
    assume white: "whitish tol (?d ! j)"
    have "j < ?w * height img" using that assms(1) by (simp add: wf_image_def)
    from coordinates_of_index [OF this]
    have c: "j mod ?w < ?w" "j div ?w < height img" "j div ?w * ?w + j mod ?w = j" by simp_all
    with white have "(int (j mod ?w), int (j div ?w)) \<in> set (iter ?tr)"
      unfolding mem by auto
    then have "?idx (int (j mod ?w), int (j div ?w)) \<in> set ?ks"
      by (simp only: set_map) (rule imageI)
    with c show "j \<in> set ?ks" by simp
  qed
  have "fold (\<lambda>k d. d[k := clear_pixel (d ! k)]) ?ks ?d = map (white_pixel tol) ?d"
  proof (rule nth_equalityI)
    show "length (fold (\<lambda>k d. d[k := clear_pixel (d ! k)]) ?ks ?d) = length (map (white_pixel tol) ?d)"
      by (simp add: fold_update_length)
  next
    fix j
    assume "j < length (fold (\<lambda>k d. d[k := clear_pixel (d ! k)]) ?ks ?d)"
    then have j: "j < length ?d" by (simp add: fold_update_length)
    have "fold (\<lambda>k d. d[k := clear_pixel (d ! k)]) ?ks ?d ! j
        = (if j \<in> set ?ks then clear_pixel (?d ! j) else ?d ! j)"
      by (rule fold_update_nth) (use j clear_pixel_idem in auto)
    also have "\<dots> = white_pixel tol (?d ! j)"
      by (simp only: ks [OF j] white_pixel_clear)
    finally show "fold (\<lambda>k d. d[k := clear_pixel (d ! k)]) ?ks ?d ! j = map (white_pixel tol) ?d ! j"
      using j by simp
  qed
  then have "fold (modify_at clear_pixel) ?ks img = remove_white_background img tol"
    by (simp only: fold_modify_at_image remove_white_background_map)
  with run show ?thesis by simp
qed


section \<open>More sample images\<close>

lemma wf_greys: "wf_image greys"
  by (simp add: wf_image_def greys_def)

lemma greys_pixels:
  "to_py (data greys ! 0) = (230, 230, 230, 255)"
  "to_py (data greys ! 1) = (225, 230, 230, 255)"
  "length (data greys) = 2"
  by (simp_all add: greys_def to_py_def)

lemma remove_white_background_greys: "remove_white_background greys 30 = greys_out"
  by (simp add: remove_white_background_map)
     (simp add: greys_def greys_out_def white_pixel_def to_py_def of_py_def clip8_def)

theorem whiteners_agree_witness:
  "wf_image greys \<and> (\<forall>cs. set (rev cs) = set cs) \<and>
   remove_near_white_with_edges rev greys 30 = Inr (remove_white_background greys 30) \<and>
   remove_white_background greys 30 = greys_out"
proof -
  have r: "\<forall>cs :: (int \<times> int) list. set (rev cs) = set cs" by simp
  show ?thesis
    using whiteners_agree [OF wf_greys r, of 30] wf_greys remove_white_background_greys
    by simp
qed

theorem remove_white_background_pixels_witness:
  "0 < length (data greys) \<and> to_py (data greys ! 0) = (230, 230, 230, 255) \<and>
   to_py (data (remove_white_background greys 30) ! 0) = (230, 230, 230, 0) \<and>
   1 < length (data greys) \<and> to_py (data greys ! 1) = (225, 230, 230, 255) \<and>
   to_py (data (remove_white_background greys 30) ! 1) = (225, 230, 230, 255) \<and>
   remove_white_background_default greys = remove_white_background greys 30"
proof -
  have all: "\<forall>i<length (data greys). \<forall>r g b a. to_py (data greys ! i) = (r, g, b, a) \<longrightarrow>
      to_py (data (remove_white_background greys 30) ! i) =
        (if r > 255 - 30 \<and> g > 255 - 30 \<and> b > 255 - 30 then (r, g, b, 0) else (r, g, b, a))"
    and dflt: "remove_white_background_default greys = remove_white_background greys 30"
    using remove_white_background_pixels [of greys 30] by blast+
  have i: "0 < length (data greys)" "1 < length (data greys)" by (simp_all add: greys_pixels)
  from all i(1) greys_pixels(1)
  have "to_py (data (remove_white_background greys 30) ! 0) =
      (if (230::int) > 255 - 30 \<and> (230::int) > 255 - 30 \<and> (230::int) > 255 - 30
       then (230, 230, 230, 0) else (230, 230, 230, 255))"
    by blast
  moreover from all i(2) greys_pixels(2)
  have "to_py (data (remove_white_background greys 30) ! 1) =
      (if (225::int) > 255 - 30 \<and> (230::int) > 255 - 30 \<and> (230::int) > 255 - 30
       then (225, 230, 230, 0) else (225, 230, 230, 255))"
    by blast
  ultimately show ?thesis
    using i greys_pixels dflt by simp
qed

theorem remove_white_background_large_tolerance_witness:
  "(256::int) \<le> 256 \<and> 1 < length (data strip) \<and> alpha (to_py (data strip ! 1)) = 255 \<and>
   alpha (to_py (data (remove_white_background strip 256) ! 1)) = 0 \<and>
   rgb (to_py (data (remove_white_background strip 256) ! 1)) = (219, 255, 255)"
proof -
  have h: "(256::int) \<le> 256" by simp
  have i: "1 < length (data strip)" by (simp add: strip_pixels)
  from remove_white_background_large_tolerance [OF h, of strip] i
  have "alpha (to_py (data (remove_white_background strip 256) ! 1)) = 0 \<and>
      rgb (to_py (data (remove_white_background strip 256) ! 1)) = rgb (to_py (data strip ! 1))"
    by blast
  then show ?thesis
    using i by (simp add: strip_pixels [unfolded One_nat_def] alpha_def rgb_def)
qed

lemma wf_dot: "wf_image dot" and wf_column: "wf_image column"
  by (simp_all add: wf_image_def dot_def column_def)

lemma dot_pixels:
  "0 < width dot" "0 < height dot" "width dot = 1" "height dot = 1"
  "pixel_at dot 0 0 = (10, 20, 30, 255)"
  "pixel_at dot (width dot - 1) 0 = (10, 20, 30, 255)"
  "pixel_at dot 0 (height dot - 1) = (10, 20, 30, 255)"
  "pixel_at dot (width dot - 1) (height dot - 1) = (10, 20, 30, 255)"
  by (simp_all add: dot_def pixel_at_def to_py_def)

lemma column_pixels:
  "0 < width column" "0 < height column" "width column = 1" "height column = 2"
  "pixel_at column 0 0 = (0, 0, 0, 255)"
  "pixel_at column (width column - 1) 0 = (0, 0, 0, 255)"
  "pixel_at column 0 (height column - 1) = (255, 255, 255, 255)"
  "pixel_at column (width column - 1) (height column - 1) = (255, 255, 255, 255)"
  "pixel_at column 0 1 = (255, 255, 255, 255)"
  by (simp_all add: column_def pixel_at_def to_py_def)

theorem background_estimate_witness:
  "wf_image dot \<and> width dot = 1 \<and> height dot = 1 \<and> pixel_at dot 0 0 = (10, 20, 30, 255) \<and>
   corners dot = Inr [(10, 20, 30, 255), (10, 20, 30, 255), (10, 20, 30, 255), (10, 20, 30, 255)] \<and>
   average [(10, 20, 30, 255), (10, 20, 30, 255), (10, 20, 30, 255), (10, 20, 30, 255)]
     = (10, 20, 30) \<and>
   wf_image column \<and> width column = 1 \<and> height column = 2 \<and>
   pixel_at column 0 0 = (0, 0, 0, 255) \<and> pixel_at column 0 1 = (255, 255, 255, 255) \<and>
   corners column
     = Inr [(0, 0, 0, 255), (0, 0, 0, 255), (255, 255, 255, 255), (255, 255, 255, 255)] \<and>
   average [(0, 0, 0, 255), (0, 0, 0, 255), (255, 255, 255, 255), (255, 255, 255, 255)]
     = ((0 + 255) div 2, (0 + 255) div 2, (0 + 255) div 2)"
  using background_estimate [OF wf_dot dot_pixels(1,2,5,6,7,8)]
    background_estimate [OF wf_column column_pixels(1,2,5,6,7,8)]
    wf_dot wf_column dot_pixels(3,4,5) column_pixels(3,4,5,9)
  by simp

text \<open>
  On a column of a black and a white pixel the estimate is \<open>(127, 127, 127)\<close>, the colour of
  neither: the estimate of a 1\<times>N image is not a corner pixel's own colour, as claim C9 has it.
\<close>

theorem background_estimate_counterexample:
  "wf_image column \<and> width column = 1 \<and> height column = 2 \<and>
   corners column
     = Inr [(0, 0, 0, 255), (0, 0, 0, 255), (255, 255, 255, 255), (255, 255, 255, 255)] \<and>
   average [(0, 0, 0, 255), (0, 0, 0, 255), (255, 255, 255, 255), (255, 255, 255, 255)]
     = (127, 127, 127) \<and>
   rgb (pixel_at column 0 0) = (0, 0, 0) \<and> rgb (pixel_at column 0 1) = (255, 255, 255) \<and>
   average [(0, 0, 0, 255), (0, 0, 0, 255), (255, 255, 255, 255), (255, 255, 255, 255)]
     \<noteq> rgb (pixel_at column 0 0) \<and>
   average [(0, 0, 0, 255), (0, 0, 0, 255), (255, 255, 255, 255), (255, 255, 255, 255)]
     \<noteq> rgb (pixel_at column 0 1)"
  using corners_nonempty [OF column_pixels(1,2)]
  by (simp add: wf_column column_pixels [unfolded One_nat_def] average_def rgb_def)

end
